theory Spec2Isabelle
  imports Main "HOL-Library.Sublist"
begin

section \<open>Project scanner: a shallow embedding of project\_scanner.py\<close>

text \<open>
  Conventions of the embedding.
  \<^item> Python text (\<open>str\<close>) is a \<open>string\<close> holding its UTF-8 bytes; the non-ASCII
    characters of the source's literals are written as their bytes. The operations
    \<open>lower\<close>, \<open>strip\<close> and \<open>splitlines\<close> are modelled on ASCII: a byte above
    127 is neither cased, nor white space, nor a line boundary.
  \<^item> A \<open>pathlib\<close> path is the list of its \<open>parts\<close>; an absolute POSIX path starts
    with the part \<open>''/''\<close>.
  \<^item> The file system below the scan root is a tree of nodes, the children of a directory
    in the order the operating system lists them.
  \<^item> What the program reads from its environment is an argument of the model: the
    time stamp, the outcome of each of the three \<open>git\<close> commands (their output taken
    as UTF-8 text), the resolved root and the tree. Writing to the console is not modelled.
\<close>

subsection \<open>Configuration\<close>

definition FILE_TYPES :: "string set" where
  "FILE_TYPES = {''.py'', ''.js'', ''.jsx'', ''.ts'', ''.tsx'', ''.html'', ''.css'',
     ''.md'', ''.txt'', ''.json'', ''.yml'', ''.yaml'', ''.xml'', ''.csv'',
     ''.java'', ''.c'', ''.cpp'', ''.h'', ''.sql'', ''.sh'', ''.bat'', ''.ps1''}"

definition SKIP_DIRS :: "string set" where
  "SKIP_DIRS = {''.git'', ''__pycache__'', ''node_modules'', ''venv'', ''env'',
     ''.venv'', ''dist'', ''build'', ''.idea'', ''.vscode'', ''target'',
     ''bin'', ''obj'', ''debug'', ''release''}"

definition SKIP_FILES :: "string set" where
  "SKIP_FILES = {''package-lock.json'', ''yarn.lock'', ''.ds_store'', ''thumbs.db''}"

definition MAX_FILE_SIZE :: nat where
  "MAX_FILE_SIZE = 95 * 1024 * 1024"

subsection \<open>Text operations of Python\<close>

definition byte :: "char \<Rightarrow> nat" where
  "byte c = of_char c"

text \<open>\<open>str.lower\<close>, on ASCII letters.\<close>

definition lower_char :: "char \<Rightarrow> char" where
  "lower_char c = (if 65 \<le> byte c \<and> byte c \<le> 90 then char_of (byte c + 32) else c)"

definition lower :: "string \<Rightarrow> string" where
  "lower s = map lower_char s"

text \<open>\<open>s.rfind(c)\<close>: the index of the last occurrence, \<open>None\<close> for Python's \<open>-1\<close>.\<close>

fun rfind :: "char \<Rightarrow> string \<Rightarrow> nat option" where
  "rfind c [] = None"
| "rfind c (x # xs) =
     (case rfind c xs of
        Some i \<Rightarrow> Some (Suc i)
      | None \<Rightarrow> if x = c then Some 0 else None)"

text \<open>\<open>sep.join(xs)\<close>.\<close>

fun join :: "string \<Rightarrow> string list \<Rightarrow> string" where
  "join sep [] = []"
| "join sep [x] = x"
| "join sep (x # y # ys) = x @ sep @ join sep (y # ys)"

text \<open>The white space that \<open>str.strip()\<close> removes, and \<open>strip\<close> itself.\<close>

definition is_space :: "char \<Rightarrow> bool" where
  "is_space c = (byte c = 32 \<or> (9 \<le> byte c \<and> byte c \<le> 13) \<or> (28 \<le> byte c \<and> byte c \<le> 31))"

definition strip :: "string \<Rightarrow> string" where
  "strip s = rev (dropWhile is_space (rev (dropWhile is_space s)))"

text \<open>\<open>s.lstrip(chars)\<close>.\<close>

definition lstrip :: "string \<Rightarrow> string \<Rightarrow> string" where
  "lstrip chars s = dropWhile (\<lambda>c. c \<in> set chars) s"

text \<open>
  \<open>s.replace(old, '')\<close>: every occurrence of \<open>old\<close>, found from the left and not
  overlapping, is removed; an empty \<open>old\<close> leaves \<open>s\<close> as it is.
\<close>

function remove_all :: "string \<Rightarrow> string \<Rightarrow> string" where
  "remove_all old [] = []"
| "remove_all old (c # cs) =
     (if old \<noteq> [] \<and> prefix old (c # cs)
      then remove_all old (drop (length old) (c # cs))
      else c # remove_all old cs)"
  by pat_completeness auto
termination
  by (relation "measure (\<lambda>(old, s). length s)") auto

text \<open>
  \<open>str.splitlines()\<close>: the lines of a text without their line boundaries. A boundary
  is \<open>\r\n\<close>, or one of \<open>\n\<close>, \<open>\r\<close>, \<open>\v\<close>, \<open>\f\<close>, \<open>\x1c\<close>, \<open>\x1d\<close>,
  \<open>\x1e\<close>. The first argument is the line read so far.
\<close>

definition is_linebreak :: "char \<Rightarrow> bool" where
  "is_linebreak c = ((10 \<le> byte c \<and> byte c \<le> 13) \<or> (28 \<le> byte c \<and> byte c \<le> 30))"

fun splitlines_from :: "string \<Rightarrow> string \<Rightarrow> string list" where
  "splitlines_from cur [] = (if cur = [] then [] else [cur])"
| "splitlines_from cur [c] = (if is_linebreak c then [cur] else [cur @ [c]])"
| "splitlines_from cur (c # d # cs) =
     (if byte c = 13 \<and> byte d = 10 then cur # splitlines_from [] cs
      else if is_linebreak c then cur # splitlines_from [] (d # cs)
      else splitlines_from (cur @ [c]) (d # cs))"

definition splitlines :: "string \<Rightarrow> string list" where
  "splitlines s = splitlines_from [] s"

text \<open>\<open>str(n)\<close> for a non-negative integer: its decimal digits.\<close>

function str_nat :: "nat \<Rightarrow> string" where
  "str_nat n = (if n < 10 then [char_of (48 + n)] else str_nat (n div 10) @ [char_of (48 + n mod 10)])"
  by pat_completeness auto
termination
  by (relation "measure id") auto

subsection \<open>Paths\<close>

type_synonym path = "string list"

text \<open>\<open>path.name\<close>: the last part, empty for a path that is only its anchor.\<close>

definition path_name :: "path \<Rightarrow> string" where
  "path_name p = (if p = [] \<or> last p = ''/'' then [] else last p)"

text \<open>
  \<open>path.suffix\<close>: with \<open>i = name.rfind('.')\<close>, the name from \<open>i\<close> on when
  \<open>0 < i < len(name) - 1\<close>, else the empty string.
\<close>

definition name_suffix :: "string \<Rightarrow> string" where
  "name_suffix name =
     (case rfind (CHR ''.'') name of
        None \<Rightarrow> []
      | Some i \<Rightarrow> if 0 < i \<and> Suc i < length name then drop i name else [])"

definition path_suffix :: "path \<Rightarrow> string" where
  "path_suffix p = name_suffix (path_name p)"

text \<open>\<open>str(path)\<close> on POSIX.\<close>

definition path_str :: "path \<Rightarrow> string" where
  "path_str p =
     (case p of
        [] \<Rightarrow> ''.''
      | a # rest \<Rightarrow> if a = ''/'' then ''/'' @ join ''/'' rest else join ''/'' p)"

text \<open>\<open>path.relative_to(root)\<close>; \<open>None\<close> is its \<open>ValueError\<close>.\<close>

definition relative_to :: "path \<Rightarrow> path \<Rightarrow> path option" where
  "relative_to p root = (if prefix root p then Some (drop (length root) p) else None)"

text \<open>
  \<open>Path(s)\<close> on POSIX: the text is cut at \<open>/\<close>, empty pieces and \<open>.\<close> pieces are
  dropped, and leading slashes give the anchor (two slashes exactly are kept as \<open>//\<close>).
\<close>

fun split_at :: "char \<Rightarrow> string \<Rightarrow> string \<Rightarrow> string list" where
  "split_at sep cur [] = [cur]"
| "split_at sep cur (c # cs) =
     (if c = sep then cur # split_at sep [] cs else split_at sep (cur @ [c]) cs)"

definition Path :: "string \<Rightarrow> path" where
  "Path s =
     (let pieces = filter (\<lambda>x. x \<noteq> [] \<and> x \<noteq> ''.'') (split_at (CHR ''/'') [] s) in
      if prefix ''///'' s then ''/'' # pieces
      else if prefix ''//'' s then ''//'' # pieces
      else if prefix ''/'' s then ''/'' # pieces
      else pieces)"

subsection \<open>The skip predicate\<close>

text \<open>
  \<open>should_skip_path\<close>: some part of the path is, in lower case, a skipped directory name,
  or the name of the path is, in lower case, a skipped file name.
\<close>

definition should_skip_path :: "path \<Rightarrow> bool" where
  "should_skip_path p =
     ((\<exists>part \<in> set p. lower part \<in> SKIP_DIRS) \<or> lower (path_name p) \<in> SKIP_FILES)"

subsection \<open>Reading a file as text\<close>

text \<open>
  \<open>open(path, "r", encoding="utf-8", errors="ignore")\<close> followed by \<open>f.read()\<close>
  decodes the bytes of the file as UTF-8 and translates the line ends. The decoder reads
  one sequence at a time: \<open>utf8_step\<close> gives, for the bytes still to read, how many bytes
  the next step covers and whether they are a well-formed sequence. An ill-formed lead
  byte is an error of one byte, a wrong continuation byte ends the error before it, and
  a sequence cut by the end of the data is an error up to the end.
\<close>

definition is_cont :: "nat \<Rightarrow> bool" where
  "is_cont b = (128 \<le> b \<and> b < 192)"

definition utf8_step :: "string \<Rightarrow> nat \<times> bool" where
  "utf8_step s =
     (let n = length s; b = (\<lambda>i. byte (s ! i)); ch = b 0 in
      if ch < 128 then (1, True)
      else if ch < 194 then (1, False)
      else if ch < 224 then
        (if n < 2 then (n, False)
         else if is_cont (b 1) then (2, True) else (1, False))
      else if ch < 240 then
        (if n < 2 then (n, False)
         else if \<not> is_cont (b 1) then (1, False)
         else if (if b 1 < 160 then ch = 224 else ch = 237) then (1, False)
         else if n < 3 then (n, False)
         else if is_cont (b 2) then (3, True) else (2, False))
      else if ch < 245 then
        (if n < 2 then (n, False)
         else if \<not> is_cont (b 1) then (1, False)
         else if (if b 1 < 144 then ch = 240 else ch = 244) then (1, False)
         else if n < 3 then (n, False)
         else if \<not> is_cont (b 2) then (2, False)
         else if n < 4 then (n, False)
         else if is_cont (b 3) then (4, True) else (3, False))
      else (1, False))"

lemma utf8_step_pos: "s \<noteq> [] \<Longrightarrow> 0 < fst (utf8_step s)"
  by (cases s) (simp_all add: utf8_step_def Let_def)

text \<open>
  The error handlers of the decoder: \<open>Strict\<close> raises \<open>UnicodeDecodeError\<close> (the
  result \<open>None\<close>) at the first error, \<open>Ignore\<close> drops the bytes of the error and goes on.
\<close>

datatype errors = Strict | Ignore

function utf8_decode :: "errors \<Rightarrow> string \<Rightarrow> string option" where
  "utf8_decode pol s =
     (if s = [] then Some []
      else if snd (utf8_step s)
        then map_option (\<lambda>r. take (fst (utf8_step s)) s @ r)
               (utf8_decode pol (drop (fst (utf8_step s)) s))
      else (case pol of
              Strict \<Rightarrow> None
            | Ignore \<Rightarrow> utf8_decode pol (drop (fst (utf8_step s)) s)))"
  by pat_completeness auto
termination
proof (relation "measure (\<lambda>(pol, s). length s)")
  show "wf (measure (\<lambda>(pol, s). length s))" by simp
next
  fix pol :: errors and s :: string
  assume "s \<noteq> []"
  then show "((pol, drop (fst (utf8_step s)) s), (pol, s)) \<in> measure (\<lambda>(pol, s). length s)"
    using utf8_step_pos [of s] by simp
next
  fix pol :: errors and s :: string
  assume "s \<noteq> []"
  then show "((pol, drop (fst (utf8_step s)) s), (pol, s)) \<in> measure (\<lambda>(pol, s). length s)"
    using utf8_step_pos [of s] by simp
qed

declare utf8_decode.simps [simp del]

text \<open>Universal newlines of text mode: \<open>\r\n\<close> and \<open>\r\<close> are read as \<open>\n\<close>.\<close>

fun universal_newlines :: "string \<Rightarrow> string" where
  "universal_newlines [] = []"
| "universal_newlines [c] = (if byte c = 13 then [CHR 10] else [c])"
| "universal_newlines (c # d # cs) =
     (if byte c = 13 \<and> byte d = 10 then CHR 10 # universal_newlines cs
      else if byte c = 13 then CHR 10 # universal_newlines (d # cs)
      else c # universal_newlines (d # cs))"

text \<open>
  Opening a file and reading it whole, as line 102 and 103 of the source do: an exception
  of the operating system is passed on, the bytes are decoded with the handler
  \<open>Ignore\<close>. (That handler never raises, see \<open>utf8_decode_Ignore\<close> below, so the
  \<open>None\<close> case is not reached.)
\<close>

definition open_read :: "string + string \<Rightarrow> string + string" where
  "open_read r =
     (case r of
        Inl msg \<Rightarrow> Inl msg
      | Inr bytes \<Rightarrow>
          (case utf8_decode Ignore bytes of
             None \<Rightarrow> Inl ''UnicodeDecodeError''
           | Some text \<Rightarrow> Inr (universal_newlines text)))"

subsection \<open>The directory tree and its enumeration\<close>

text \<open>
  A regular file has a name and what opening and reading it gives: \<open>Inl msg\<close> when that
  raises an exception whose text is \<open>msg\<close>, \<open>Inr bytes\<close> the bytes of the file. \<open>Other\<close>
  is an entry that is neither a regular file nor a directory.
\<close>

datatype node = File string "string + string" | Dir string "node list" | Other string

datatype kind = IsFile "string + string" | NotFile

type_synonym entry = "path \<times> kind"

fun entry_of :: "path \<Rightarrow> node \<Rightarrow> entry" where
  "entry_of dir (File n r) = (dir @ [n], IsFile r)"
| "entry_of dir (Dir n sub) = (dir @ [n], NotFile)"
| "entry_of dir (Other n) = (dir @ [n], NotFile)"

text \<open>
  \<open>root_path.rglob("*")\<close>: every directory from the root down, in pre-order, gives its
  own entries; the root itself is not among them. \<open>rglob dir cs\<close> enumerates below the
  directory \<open>dir\<close> whose children are \<open>cs\<close>.
\<close>

fun rglob :: "path \<Rightarrow> node list \<Rightarrow> entry list"
  and rglob_below :: "path \<Rightarrow> node list \<Rightarrow> entry list"
  and rglob_node :: "path \<Rightarrow> node \<Rightarrow> entry list" where
  "rglob dir cs = map (entry_of dir) cs @ rglob_below dir cs"
| "rglob_below dir [] = []"
| "rglob_below dir (c # cs) = rglob_node dir c @ rglob_below dir cs"
| "rglob_node dir (Dir n sub) = rglob (dir @ [n]) sub"
| "rglob_node dir (File n r) = []"
| "rglob_node dir (Other n) = []"

subsection \<open>The metadata collector\<close>

text \<open>
  The outcome of \<open>subprocess.check_output\<close> for one \<open>git\<close> command: its output, or one
  of the two exceptions that \<open>get_git_info\<close> handles (a non-zero exit status, or no
  \<open>git\<close> program).
\<close>

datatype query = Output string | CalledProcessError | FileNotFoundError

text \<open>
  \<open>get_git_info\<close>: the three commands run in order and the first exception gives
  \<open>(None, None, 0)\<close>. The count is the number of lines of the status output that start
  with \<open>'' M''\<close> or with \<open>''??''\<close>.
\<close>

definition get_git_info :: "query \<Rightarrow> query \<Rightarrow> query \<Rightarrow> string option \<times> string option \<times> nat" where
  "get_git_info q_branch q_commit q_status =
     (case q_branch of
        Output b \<Rightarrow>
          (case q_commit of
             Output c \<Rightarrow>
               (case q_status of
                  Output status \<Rightarrow>
                    (Some (strip b), Some (strip c),
                     length (filter (\<lambda>line. prefix '' M'' line \<or> prefix ''??'' line)
                               (splitlines status)))
                | _ \<Rightarrow> (None, None, 0))
           | _ \<Rightarrow> (None, None, 0))
      | _ \<Rightarrow> (None, None, 0))"

subsection \<open>The scan\<close>

text \<open>The truth value Python gives to an optional text: \<open>None\<close> and \<open>''\<close> are false.\<close>

definition truthy :: "string option \<Rightarrow> bool" where
  "truthy x = (case x of None \<Rightarrow> False | Some s \<Rightarrow> s \<noteq> [])"

text \<open>An optional text inside an f-string.\<close>

fun fmt :: "string option \<Rightarrow> string" where
  "fmt None = ''None''"
| "fmt (Some s) = s"

text \<open>The literals of the output. The pictographs are written as their UTF-8 bytes.\<close>

definition title_line :: "string \<Rightarrow> string" where
  "title_line timestamp =
     ''# '' @ [CHR 0xF0, CHR 0x9F, CHR 0x9A, CHR 0x80] @ '' PROJECT CODE CONTEXT - '' @ timestamp
       @ ''\<newline>\<newline>''"

definition not_git_marker :: string where
  "not_git_marker =
     [CHR 0xE2, CHR 0x9A, CHR 0xA0, CHR 0xEF, CHR 0xB8, CHR 0x8F] @ '' Not a Git repository\<newline>''"

definition unstaged_line :: "nat \<Rightarrow> string" where
  "unstaged_line n =
     [CHR 0xF0, CHR 0x9F, CHR 0x9A, CHR 0xA8] @ '' Unstaged Changes: '' @ str_nat n @ '' files\<newline>''"

definition file_header :: "path \<Rightarrow> string" where
  "file_header rel_path = ''\<newline>\<newline># File: '' @ path_str rel_path @ ''\<newline>''"

definition error_marker :: "path \<Rightarrow> string \<Rightarrow> string" where
  "error_marker rel_path msg =
     ''\<newline>\<newline>[Error reading '' @ path_str rel_path @ '': '' @ msg @ '']''"

definition summary_line :: "nat \<Rightarrow> string" where
  "summary_line n =
     ''\<newline>\<newline>'' @ [CHR 0xF0, CHR 0x9F, CHR 0x93, CHR 0x8A] @ '' Total files processed: ''
       @ str_nat n @ ''\<newline>''"

text \<open>Lines 72 to 81: the header, from the time stamp, the root and the metadata.\<close>

definition context_header :: "string \<Rightarrow> path \<Rightarrow> string option \<times> string option \<times> nat \<Rightarrow> string" where
  "context_header timestamp root_path info =
     (case info of (branch, commit_id, unstaged_files) \<Rightarrow>
        title_line timestamp @ ''Directory: '' @ path_str root_path @ ''\<newline>'' @
        (if truthy branch \<and> truthy commit_id
         then ''Git Branch: '' @ fmt branch @ ''\<newline>'' @
              ''Git Commit ID: '' @ fmt commit_id @ ''\<newline>'' @
              (if 0 < unstaged_files then unstaged_line unstaged_files else [])
         else not_git_marker))"

text \<open>
  The state of the loop: the two variables of the source, and \<open>processed\<close>, a ghost
  variable that records the pair of relative path and content at the place where the
  source appends a file to the buffer and counts it (lines 104 to 106). It is the
  ScanResult of the specification.
\<close>

record scan_state =
  combined_code :: string
  file_count :: nat
  processed :: "(path \<times> string) list"

text \<open>Lines 96 to 99: the relative path, with the fallback on text.\<close>

definition rel_path_of :: "path \<Rightarrow> path \<Rightarrow> path" where
  "rel_path_of current_path root_path =
     (case relative_to current_path root_path of
        Some rel \<Rightarrow> rel
      | None \<Rightarrow> Path (lstrip [CHR 0x5C, CHR ''/''] (remove_all (path_str root_path) (path_str current_path))))"

text \<open>Lines 90 to 109: the body of the loop, for one entry of the enumeration.\<close>

definition scan_step :: "path \<Rightarrow> scan_state \<Rightarrow> entry \<Rightarrow> scan_state" where
  "scan_step root_path st e =
     (case e of (current_path, k) \<Rightarrow>
        if should_skip_path current_path then st
        else
          (case k of
             NotFile \<Rightarrow> st
           | IsFile r \<Rightarrow>
               if lower (path_suffix current_path) \<in> FILE_TYPES then
                 (let rel_path = rel_path_of current_path root_path in
                  case open_read r of
                    Inr code \<Rightarrow>
                      st\<lparr>combined_code :=
                           combined_code st @ file_header rel_path @ code @ ''\<newline>\<newline>'',
                         file_count := file_count st + 1,
                         processed := processed st @ [(rel_path, code)]\<rparr>
                  | Inl msg \<Rightarrow>
                      st\<lparr>combined_code := combined_code st @ error_marker rel_path msg\<rparr>)
               else st))"

definition scan_loop :: "path \<Rightarrow> entry list \<Rightarrow> scan_state \<Rightarrow> scan_state" where
  "scan_loop root_path es st = foldl (scan_step root_path) st es"

text \<open>
  \<open>scan_project\<close>, from the resolved root: \<open>scan_final\<close> is the state when the loop
  ends, \<open>scan_project\<close> the text returned.
\<close>

definition scan_init :: "string \<Rightarrow> query \<Rightarrow> query \<Rightarrow> query \<Rightarrow> path \<Rightarrow> scan_state" where
  "scan_init timestamp q_branch q_commit q_status root_path =
     \<lparr>combined_code =
        context_header timestamp root_path (get_git_info q_branch q_commit q_status)
          @ ''\<newline>'',
      file_count = 0,
      processed = []\<rparr>"

definition scan_final ::
  "string \<Rightarrow> query \<Rightarrow> query \<Rightarrow> query \<Rightarrow> path \<Rightarrow> node list \<Rightarrow> scan_state" where
  "scan_final timestamp q_branch q_commit q_status root_path tree =
     scan_loop root_path (rglob root_path tree)
       (scan_init timestamp q_branch q_commit q_status root_path)"

definition scan_project ::
  "string \<Rightarrow> query \<Rightarrow> query \<Rightarrow> query \<Rightarrow> path \<Rightarrow> node list \<Rightarrow> string" where
  "scan_project timestamp q_branch q_commit q_status root_path tree =
     (let st = scan_final timestamp q_branch q_commit q_status root_path tree
      in combined_code st @ summary_line (file_count st))"

text \<open>
  A qualifying entry: one that the loop does not skip at line 90 and whose suffix passes
  the test of line 95.
\<close>

definition qualifies :: "path \<Rightarrow> bool" where
  "qualifies p = (\<not> should_skip_path p \<and> lower (path_suffix p) \<in> FILE_TYPES)"

subsection \<open>A sample tree\<close>

text \<open>
  A small project: two readable sources, a dependency directory, a lock file, a file
  that cannot be opened, a file that is not valid UTF-8 and a file of a type that is
  not collected.
\<close>

definition demo_root :: path where
  "demo_root = [''/'', ''home'', ''proj'']"

definition demo_tree :: "node list" where
  "demo_tree =
     [File ''a.py'' (Inr ''x''),
      Dir ''Node_Modules'' [File ''b.js'' (Inr ''y'')],
      File ''Package-Lock.json'' (Inr ''{}''),
      File ''locked.txt'' (Inl ''Permission denied''),
      Dir ''docs'' [File ''b.md'' (Inr ''y''), File ''raw.txt'' (Inr [CHR 0xFF, CHR ''z''])],
      File ''photo.png'' (Inr ''p'')]"

text \<open>A file of one byte more than the size threshold.\<close>

definition big_file :: string where
  "big_file = replicate (MAX_FILE_SIZE + 1) (CHR ''a'')"


text \<open>A command that ran and gave its output.\<close>

definition succeeded :: "query \<Rightarrow> bool" where
  "succeeded q = (case q of Output out \<Rightarrow> True | _ \<Rightarrow> False)"

section \<open>Properties\<close>

subsection \<open>Reading never fails on the bytes\<close>

lemma utf8_decode_Ignore: "\<exists>text. utf8_decode Ignore s = Some text"
proof (induction "length s" arbitrary: s rule: less_induct)
  case less
  show ?case
  proof (cases "s = []")
    case True
    then show ?thesis by (simp add: utf8_decode.simps)
  next
    case False
    then have "length (drop (fst (utf8_step s)) s) < length s"
      using utf8_step_pos [of s] by simp
    then obtain r where r: "utf8_decode Ignore (drop (fst (utf8_step s)) s) = Some r"
      using less by blast
    show ?thesis
      using False r by (subst utf8_decode.simps) simp
  qed
qed

lemma open_read_bytes: "\<exists>code. open_read (Inr bytes) = Inr code"
  using utf8_decode_Ignore [of bytes] by (auto simp: open_read_def)

lemma open_read_error: "open_read (Inl msg) = Inl msg"
  by (simp add: open_read_def)

subsection \<open>Every entry lies below the root\<close>

lemma fst_entry_of: "fst (entry_of dir c) = dir @ [case c of File n r \<Rightarrow> n | Dir n sub \<Rightarrow> n | Other n \<Rightarrow> n]"
  by (cases c) simp_all

lemma rglob_below_dir:
  "e \<in> set (rglob dir cs) \<Longrightarrow> \<exists>rel. rel \<noteq> [] \<and> fst e = dir @ rel"
  "e \<in> set (rglob_below dir cs) \<Longrightarrow> \<exists>rel. rel \<noteq> [] \<and> fst e = dir @ rel"
  "e \<in> set (rglob_node dir c) \<Longrightarrow> \<exists>rel. rel \<noteq> [] \<and> fst e = dir @ rel"
proof (induction dir cs and dir cs and dir c arbitrary: e and e and e
    rule: rglob_rglob_below_rglob_node.induct)
  case (1 dir cs)
  from "1.prems" have "e \<in> entry_of dir ` set cs \<or> e \<in> set (rglob_below dir cs)"
    by simp
  then show ?case
  proof
    assume "e \<in> entry_of dir ` set cs"
    then obtain c where "e = entry_of dir c" by blast
    then show ?thesis by (simp add: fst_entry_of)
  next
    assume "e \<in> set (rglob_below dir cs)"
    then show ?thesis by (rule "1.IH")
  qed
next
  case (2 dir)
  then show ?case by simp
next
  case (3 dir c cs)
  from "3.prems" have "e \<in> set (rglob_node dir c) \<or> e \<in> set (rglob_below dir cs)"
    by simp
  then show ?case using "3.IH" by blast
next
  case (4 dir n sub)
  from "4.prems" have "e \<in> set (rglob (dir @ [n]) sub)" by simp
  then obtain rel where "fst e = (dir @ [n]) @ rel" using "4.IH" by blast
  then have "n # rel \<noteq> [] \<and> fst e = dir @ (n # rel)" by simp
  then show ?case by blast
next
  case (5 dir n r)
  then show ?case by simp
next
  case (6 dir n)
  then show ?case by simp
qed


lemma rel_path_of_append: "rel_path_of (root_path @ rel) root_path = rel"
  by (simp add: rel_path_of_def relative_to_def)



subsection \<open>The loop, entry by entry\<close>

lemma scan_loop_Nil: "scan_loop root_path [] st = st"
  by (simp add: scan_loop_def)

lemma scan_loop_Cons: "scan_loop root_path (e # es) st = scan_loop root_path es (scan_step root_path st e)"
  by (simp add: scan_loop_def)

lemma scan_loop_append:
  "scan_loop root_path (es1 @ es2) st = scan_loop root_path es2 (scan_loop root_path es1 st)"
  by (simp add: scan_loop_def)

lemma scan_step_skip: "should_skip_path p \<Longrightarrow> scan_step root_path st (p, k) = st"
  by (simp add: scan_step_def)

lemma scan_step_error:
  "qualifies p \<Longrightarrow>
   scan_step root_path st (p, IsFile (Inl msg)) =
     st\<lparr>combined_code := combined_code st @ error_marker (rel_path_of p root_path) msg\<rparr>"
  by (simp add: scan_step_def qualifies_def open_read_error Let_def)

lemma scan_step_read:
  "qualifies p \<Longrightarrow> open_read r = Inr code \<Longrightarrow>
   scan_step root_path st (p, IsFile r) =
     st\<lparr>combined_code :=
          combined_code st @ file_header (rel_path_of p root_path) @ code @ ''\<newline>\<newline>'',
        file_count := file_count st + 1,
        processed := processed st @ [(rel_path_of p root_path, code)]\<rparr>"
  by (simp add: scan_step_def qualifies_def Let_def)





subsection \<open>Suffixes and letter case\<close>







subsection \<open>The loop only appends\<close>

lemma scan_loop_all_skipped:
  "(\<And>e. e \<in> set es \<Longrightarrow> should_skip_path (fst e)) \<Longrightarrow> scan_loop root_path es st = st"
proof (induction es arbitrary: st)
  case Nil
  then show ?case by (simp add: scan_loop_Nil)
next
  case (Cons e es)
  have "should_skip_path (fst e)" using Cons.prems by simp
  then have "scan_step root_path st e = st"
    using scan_step_skip [of "fst e" root_path st "snd e"] by simp
  moreover have "scan_loop root_path es st = st"
    using Cons.IH Cons.prems by simp
  ultimately show ?case by (simp add: scan_loop_Cons)
qed

lemma skipped_root_skips_all:
  assumes "part \<in> set root_path" "lower part \<in> SKIP_DIRS" "e \<in> set (rglob root_path tree)"
  shows "should_skip_path (fst e)"
proof -
  obtain rel where "fst e = root_path @ rel"
    using rglob_below_dir(1) [OF assms(3)] by blast
  with assms(1,2) show ?thesis by (auto simp: should_skip_path_def)
qed

lemma scan_step_appends:
  "\<exists>txt n more. \<forall>st.
     combined_code (scan_step root_path st e) = combined_code st @ txt \<and>
     file_count (scan_step root_path st e) = file_count st + n \<and>
     processed (scan_step root_path st e) = processed st @ more"
proof (cases e)
  case (Pair p k)
  show ?thesis
  proof (cases "qualifies p")
    case False
    then have "\<forall>st. scan_step root_path st e = st"
      using Pair by (auto simp: scan_step_def qualifies_def split: kind.splits)
    then have "\<forall>st. combined_code (scan_step root_path st e) = combined_code st @ [] \<and>
      file_count (scan_step root_path st e) = file_count st + 0 \<and>
      processed (scan_step root_path st e) = processed st @ []" by simp
    then show ?thesis by blast
  next
    case True
    show ?thesis
    proof (cases k)
      case NotFile
      then have "\<forall>st. scan_step root_path st e = st"
        using Pair by (simp add: scan_step_def)
      then have "\<forall>st. combined_code (scan_step root_path st e) = combined_code st @ [] \<and>
        file_count (scan_step root_path st e) = file_count st + 0 \<and>
        processed (scan_step root_path st e) = processed st @ []" by simp
      then show ?thesis by blast
    next
      case (IsFile r)
      show ?thesis
      proof (cases "open_read r")
        case (Inr code)
        have "\<forall>st. combined_code (scan_step root_path st e) =
            combined_code st @ (file_header (rel_path_of p root_path) @ code @ ''\<newline>\<newline>'') \<and>
          file_count (scan_step root_path st e) = file_count st + 1 \<and>
          processed (scan_step root_path st e) = processed st @ [(rel_path_of p root_path, code)]"
          using Pair IsFile scan_step_read [OF True Inr] by simp
        then show ?thesis by blast
      next
        case (Inl msg)
        have "\<forall>st. combined_code (scan_step root_path st e) =
            combined_code st @ error_marker (rel_path_of p root_path) msg \<and>
          file_count (scan_step root_path st e) = file_count st + 0 \<and>
          processed (scan_step root_path st e) = processed st @ []"
          using Pair IsFile True Inl by (simp add: scan_step_def qualifies_def Let_def)
        then show ?thesis by blast
      qed
    qed
  qed
qed

lemma scan_loop_appends:
  "\<exists>txt n more. \<forall>st.
     combined_code (scan_loop root_path es st) = combined_code st @ txt \<and>
     file_count (scan_loop root_path es st) = file_count st + n \<and>
     processed (scan_loop root_path es st) = processed st @ more"
proof (induction es)
  case Nil
  have "\<forall>st. combined_code (scan_loop root_path [] st) = combined_code st @ [] \<and>
     file_count (scan_loop root_path [] st) = file_count st + 0 \<and>
     processed (scan_loop root_path [] st) = processed st @ []"
    by (simp add: scan_loop_Nil)
  then show ?case by blast
next
  case (Cons e es)
  obtain t1 n1 m1 where step: "\<And>st.
     combined_code (scan_step root_path st e) = combined_code st @ t1 \<and>
     file_count (scan_step root_path st e) = file_count st + n1 \<and>
     processed (scan_step root_path st e) = processed st @ m1"
    using scan_step_appends [of root_path e] by blast
  obtain t2 n2 m2 where loop: "\<And>st.
     combined_code (scan_loop root_path es st) = combined_code st @ t2 \<and>
     file_count (scan_loop root_path es st) = file_count st + n2 \<and>
     processed (scan_loop root_path es st) = processed st @ m2"
    using Cons.IH by blast
  have "\<forall>st. combined_code (scan_loop root_path (e # es) st) = combined_code st @ (t1 @ t2) \<and>
     file_count (scan_loop root_path (e # es) st) = file_count st + (n1 + n2) \<and>
     processed (scan_loop root_path (e # es) st) = processed st @ (m1 @ m2)"
    by (simp add: scan_loop_Cons step loop)
  then show ?case by blast
qed

lemma scan_loop_collects:
  assumes "(p, IsFile r) \<in> set es" and "qualifies p" and "open_read r = Inr code"
  shows "(rel_path_of p root_path, code) \<in> set (processed (scan_loop root_path es st)) \<and>
    (\<exists>before after. combined_code (scan_loop root_path es st) =
       before @ (file_header (rel_path_of p root_path) @ code @ ''\<newline>\<newline>'') @ after)"
proof -
  from assms(1) obtain es1 es2 where es: "es = es1 @ (p, IsFile r) # es2"
    by (auto dest: split_list)
  define s1 where "s1 = scan_loop root_path es1 st"
  define s2 where "s2 = scan_step root_path s1 (p, IsFile r)"
  have loop: "scan_loop root_path es st = scan_loop root_path es2 s2"
    by (simp add: es scan_loop_append scan_loop_Cons s1_def s2_def)
  have s2: "combined_code s2 =
      combined_code s1 @ file_header (rel_path_of p root_path) @ code @ ''\<newline>\<newline>''"
    "processed s2 = processed s1 @ [(rel_path_of p root_path, code)]"
    unfolding s2_def by (simp_all add: scan_step_read [OF assms(2,3)])
  obtain added n extra where rest:
    "combined_code (scan_loop root_path es2 s2) = combined_code s2 @ added"
    "processed (scan_loop root_path es2 s2) = processed s2 @ extra"
    using scan_loop_appends [of root_path es2] by blast
  have "(rel_path_of p root_path, code) \<in> set (processed (scan_loop root_path es st))"
    by (simp add: loop rest s2)
  moreover have "combined_code (scan_loop root_path es st) =
      combined_code s1 @ (file_header (rel_path_of p root_path) @ code @ ''\<newline>\<newline>'') @ added"
    by (simp add: loop rest s2)
  ultimately show ?thesis by blast
qed


subsection \<open>What the scan collects\<close>







text \<open>
  Claim C9. The skip predicate looks at every part of the absolute path. So when a part
  of the resolved root is, in lower case, an entry of the directory skip-set, every entry
  of the tree is skipped: the ScanResult is empty, and the output is the header followed
  by the summary line with the total 0, whatever the tree holds.
\<close>

theorem skipped_root_gives_empty_scan:
  assumes "part \<in> set root_path" and "lower part \<in> SKIP_DIRS"
  shows "processed (scan_final timestamp qb qc qs root_path tree) = [] \<and>
    file_count (scan_final timestamp qb qc qs root_path tree) = 0 \<and>
    scan_project timestamp qb qc qs root_path tree =
      context_header timestamp root_path (get_git_info qb qc qs) @ ''\<newline>'' @ summary_line 0"
proof -
  have "scan_final timestamp qb qc qs root_path tree = scan_init timestamp qb qc qs root_path"
    unfolding scan_final_def
    by (rule scan_loop_all_skipped) (rule skipped_root_skips_all [OF assms])
  then show ?thesis
    by (simp add: scan_project_def scan_init_def)
qed

text \<open>The sample tree below a root \<open>/home/Build/proj\<close>.\<close>

theorem skipped_root_gives_empty_scan_witness:
  "''Build'' \<in> set [''/'', ''home'', ''Build'', ''proj''] \<and> lower ''Build'' \<in> SKIP_DIRS \<and>
   processed (scan_final ''T'' CalledProcessError CalledProcessError CalledProcessError
     [''/'', ''home'', ''Build'', ''proj''] demo_tree) = [] \<and>
   file_count (scan_final ''T'' CalledProcessError CalledProcessError CalledProcessError
     [''/'', ''home'', ''Build'', ''proj''] demo_tree) = 0 \<and>
   scan_project ''T'' CalledProcessError CalledProcessError CalledProcessError
     [''/'', ''home'', ''Build'', ''proj''] demo_tree =
   context_header ''T'' [''/'', ''home'', ''Build'', ''proj'']
     (get_git_info CalledProcessError CalledProcessError CalledProcessError) @ ''\<newline>'' @ summary_line 0"
proof -
  have h1: "''Build'' \<in> set [''/'', ''home'', ''Build'', ''proj'']" by simp
  have h2: "lower ''Build'' \<in> SKIP_DIRS" by code_simp
  from skipped_root_gives_empty_scan [OF h1 h2] h1 h2 show ?thesis by blast
qed

subsection \<open>Reading the files\<close>

text \<open>
  Claim C4. The size threshold \<open>MAX_FILE_SIZE\<close> has no effect: for every qualifying file,
  of any size, the whole content is read, recorded and appended to the buffer after its
  header. No hypothesis bounds the length of the file, and no definition of the scan
  mentions the threshold.
\<close>

theorem size_cap_not_enforced:
  assumes "(p, IsFile (Inr bytes)) \<in> set (rglob root_path tree)" and "qualifies p"
  shows "\<exists>decoded. utf8_decode Ignore bytes = Some decoded \<and>
    (rel_path_of p root_path, universal_newlines decoded)
      \<in> set (processed (scan_final timestamp qb qc qs root_path tree)) \<and>
    sublist (file_header (rel_path_of p root_path) @ universal_newlines decoded @ ''\<newline>\<newline>'')
      (scan_project timestamp qb qc qs root_path tree)"
proof -
  obtain decoded where decoded: "utf8_decode Ignore bytes = Some decoded"
    using utf8_decode_Ignore by blast
  then have rd: "open_read (Inr bytes) = Inr (universal_newlines decoded)"
    by (simp add: open_read_def)
  let ?block = "file_header (rel_path_of p root_path) @ universal_newlines decoded @ ''\<newline>\<newline>''"
  from scan_loop_collects [OF assms(1,2) rd, of root_path "scan_init timestamp qb qc qs root_path"]
  obtain before after where
    mem: "(rel_path_of p root_path, universal_newlines decoded)
      \<in> set (processed (scan_final timestamp qb qc qs root_path tree))" and
    cc: "combined_code (scan_final timestamp qb qc qs root_path tree) = before @ ?block @ after"
    unfolding scan_final_def by blast
  have "scan_project timestamp qb qc qs root_path tree =
      before @ ?block @ (after @ summary_line (file_count (scan_final timestamp qb qc qs root_path tree)))"
    by (simp add: scan_project_def Let_def cc)
  then have "sublist ?block (scan_project timestamp qb qc qs root_path tree)"
    unfolding sublist_def by blast
  with decoded mem show ?thesis by blast
qed

text \<open>A file larger than the threshold is collected whole.\<close>

theorem size_cap_not_enforced_witness:
  "MAX_FILE_SIZE < length big_file \<and>
   (\<exists>decoded. utf8_decode Ignore big_file = Some decoded \<and>
     ([''big.txt''], universal_newlines decoded)
       \<in> set (processed (scan_final ''T'' CalledProcessError CalledProcessError CalledProcessError
           demo_root [File ''big.txt'' (Inr big_file)])) \<and>
     sublist (file_header [''big.txt''] @ universal_newlines decoded @ ''\<newline>\<newline>'')
       (scan_project ''T'' CalledProcessError CalledProcessError CalledProcessError
           demo_root [File ''big.txt'' (Inr big_file)]))"
proof -
  have h1: "(demo_root @ [''big.txt''], IsFile (Inr big_file))
      \<in> set (rglob demo_root [File ''big.txt'' (Inr big_file)])"
    by simp
  have h2: "qualifies (demo_root @ [''big.txt''])" by code_simp
  have h3: "MAX_FILE_SIZE < length big_file" by (simp add: big_file_def)
  from size_cap_not_enforced [OF h1 h2] h3 show ?thesis
    by (simp add: rel_path_of_append)
qed

text \<open>
  Claim C5, as amended. For every qualifying file whose opening or reading raises an
  exception, the buffer gains the error marker with the relative path of the file and
  the text of the exception in place of a content, the count of processed files stays as
  it was, and the traversal goes on with the remaining entries. Bytes that are not
  valid UTF-8 never make a read fail: reading the bytes of a file always gives a text.
\<close>

theorem read_error_recorded_and_scan_continues:
  assumes "rglob root_path tree = es1 @ (p, IsFile (Inl msg)) # es2" and "qualifies p"
  shows "scan_final timestamp qb qc qs root_path tree =
      scan_loop root_path es2
        (let s1 = scan_loop root_path es1 (scan_init timestamp qb qc qs root_path)
         in s1\<lparr>combined_code := combined_code s1 @ error_marker (rel_path_of p root_path) msg\<rparr>) \<and>
    (\<forall>bytes. \<exists>code. open_read (Inr bytes) = Inr code)"
proof
  show "scan_final timestamp qb qc qs root_path tree =
      scan_loop root_path es2
        (let s1 = scan_loop root_path es1 (scan_init timestamp qb qc qs root_path)
         in s1\<lparr>combined_code := combined_code s1 @ error_marker (rel_path_of p root_path) msg\<rparr>)"
    unfolding scan_final_def assms(1)
    by (simp add: scan_loop_append scan_loop_Cons scan_step_error [OF assms(2)] Let_def)
next
  show "\<forall>bytes. \<exists>code. open_read (Inr bytes) = Inr code"
    using open_read_bytes by blast
qed

text \<open>
  The file \<open>locked.txt\<close> of the sample tree: the marker is in the output, and the three
  files counted are \<open>a.py\<close>, \<open>docs/b.md\<close> and \<open>docs/raw.txt\<close>.
\<close>

theorem read_error_recorded_and_scan_continues_witness:
  "rglob demo_root demo_tree =
     [(demo_root @ [''a.py''], IsFile (Inr ''x'')),
      (demo_root @ [''Node_Modules''], NotFile),
      (demo_root @ [''Package-Lock.json''], IsFile (Inr ''{}''))]
     @ (demo_root @ [''locked.txt''], IsFile (Inl ''Permission denied''))
     # [(demo_root @ [''docs''], NotFile),
        (demo_root @ [''photo.png''], IsFile (Inr ''p'')),
        (demo_root @ [''Node_Modules'', ''b.js''], IsFile (Inr ''y'')),
        (demo_root @ [''docs'', ''b.md''], IsFile (Inr ''y'')),
        (demo_root @ [''docs'', ''raw.txt''], IsFile (Inr [CHR 0xFF, CHR ''z'']))] \<and>
   qualifies (demo_root @ [''locked.txt'']) \<and>
   scan_final ''T'' CalledProcessError CalledProcessError CalledProcessError demo_root demo_tree =
     scan_loop demo_root
       [(demo_root @ [''docs''], NotFile),
        (demo_root @ [''photo.png''], IsFile (Inr ''p'')),
        (demo_root @ [''Node_Modules'', ''b.js''], IsFile (Inr ''y'')),
        (demo_root @ [''docs'', ''b.md''], IsFile (Inr ''y'')),
        (demo_root @ [''docs'', ''raw.txt''], IsFile (Inr [CHR 0xFF, CHR ''z'']))]
       (let s1 = scan_loop demo_root
            [(demo_root @ [''a.py''], IsFile (Inr ''x'')),
             (demo_root @ [''Node_Modules''], NotFile),
             (demo_root @ [''Package-Lock.json''], IsFile (Inr ''{}''))]
            (scan_init ''T'' CalledProcessError CalledProcessError CalledProcessError demo_root)
        in s1\<lparr>combined_code := combined_code s1 @
             error_marker (rel_path_of (demo_root @ [''locked.txt'']) demo_root) ''Permission denied''\<rparr>) \<and>
   file_count (scan_final ''T'' CalledProcessError CalledProcessError CalledProcessError demo_root demo_tree) = 3 \<and>
   sublist (error_marker [''locked.txt''] ''Permission denied'')
     (scan_project ''T'' CalledProcessError CalledProcessError CalledProcessError demo_root demo_tree)"
proof -
  have h1: "rglob demo_root demo_tree =
     [(demo_root @ [''a.py''], IsFile (Inr ''x'')),
      (demo_root @ [''Node_Modules''], NotFile),
      (demo_root @ [''Package-Lock.json''], IsFile (Inr ''{}''))]
     @ (demo_root @ [''locked.txt''], IsFile (Inl ''Permission denied''))
     # [(demo_root @ [''docs''], NotFile),
        (demo_root @ [''photo.png''], IsFile (Inr ''p'')),
        (demo_root @ [''Node_Modules'', ''b.js''], IsFile (Inr ''y'')),
        (demo_root @ [''docs'', ''b.md''], IsFile (Inr ''y'')),
        (demo_root @ [''docs'', ''raw.txt''], IsFile (Inr [CHR 0xFF, CHR ''z'']))]"
    by code_simp
  have h2: "qualifies (demo_root @ [''locked.txt''])" by code_simp
  have h3: "file_count (scan_final ''T'' CalledProcessError CalledProcessError CalledProcessError demo_root demo_tree) = 3"
    by code_simp
  have h4: "sublist (error_marker [''locked.txt''] ''Permission denied'')
     (scan_project ''T'' CalledProcessError CalledProcessError CalledProcessError demo_root demo_tree)"
    by code_simp
  from read_error_recorded_and_scan_continues [OF h1 h2] h1 h2 h3 h4 show ?thesis
    by blast
qed

text \<open>
  Claim C5 as stated counts a file that fails to decode as text among the failed reads.
  It is not: the strict decoder rejects the bytes \<open>0xFF 0x7A\<close>, yet the scan reads the
  file, drops the first byte, appends the header and the content \<open>z\<close>, counts the file,
  and writes no error marker.
\<close>

theorem undecodable_file_is_processed:
  "utf8_decode Strict [CHR 0xFF, CHR ''z''] = None \<and>
   qualifies (demo_root @ [''raw.txt'']) \<and>
   scan_project ''T'' CalledProcessError CalledProcessError CalledProcessError demo_root
       [File ''raw.txt'' (Inr [CHR 0xFF, CHR ''z''])] =
     context_header ''T'' demo_root (None, None, 0) @ ''\<newline>'' @
     file_header [''raw.txt''] @ ''z'' @ ''\<newline>\<newline>'' @ summary_line 1 \<and>
   \<not> sublist ''[Error reading''
       (scan_project ''T'' CalledProcessError CalledProcessError CalledProcessError demo_root
          [File ''raw.txt'' (Inr [CHR 0xFF, CHR ''z''])])"
  by code_simp

text \<open>
  Claim C10. On a read error for a qualifying file the step changes the state by
  appending the error marker to the buffer and by nothing else: the count and the
  recorded pairs are as before, and what is appended does not start as a file header
  does.
\<close>

theorem read_error_leaves_no_header:
  assumes "qualifies p" and "open_read r = Inl msg"
  shows "scan_step root_path st (p, IsFile r) =
      st\<lparr>combined_code := combined_code st @ error_marker (rel_path_of p root_path) msg\<rparr> \<and>
    \<not> prefix ''\<newline>\<newline># File: '' (error_marker (rel_path_of p root_path) msg)"
proof
  show "scan_step root_path st (p, IsFile r) =
      st\<lparr>combined_code := combined_code st @ error_marker (rel_path_of p root_path) msg\<rparr>"
    using assms by (simp add: scan_step_def qualifies_def Let_def)
next
  show "\<not> prefix ''\<newline>\<newline># File: '' (error_marker (rel_path_of p root_path) msg)"
    by (simp add: error_marker_def)
qed

text \<open>The step at \<open>locked.txt\<close>, from a state that holds one file.\<close>

theorem read_error_leaves_no_header_witness:
  "qualifies (demo_root @ [''locked.txt'']) \<and>
   open_read (Inl ''Permission denied'') = Inl ''Permission denied'' \<and>
   scan_step demo_root \<lparr>combined_code = ''header'', file_count = 1, processed = [([''a.py''], ''x'')]\<rparr>
       (demo_root @ [''locked.txt''], IsFile (Inl ''Permission denied'')) =
     \<lparr>combined_code = ''header'' @ error_marker [''locked.txt''] ''Permission denied'',
      file_count = 1, processed = [([''a.py''], ''x'')]\<rparr> \<and>
   \<not> prefix ''\<newline>\<newline># File: '' (error_marker [''locked.txt''] ''Permission denied'')"
proof -
  have h1: "qualifies (demo_root @ [''locked.txt''])" by code_simp
  have h2: "open_read (Inl ''Permission denied'') = Inl ''Permission denied''"
    by (simp add: open_read_def)
  from read_error_leaves_no_header [OF h1 h2, of demo_root
      "\<lparr>combined_code = ''header'', file_count = 1, processed = [([''a.py''], ''x'')]\<rparr>"] h1 h2
  show ?thesis by (simp add: rel_path_of_append)
qed

subsection \<open>Determinism\<close>

text \<open>
  Claim C7. The output for a tree is the title line, which holds the time stamp,
  followed by a text that does not depend on the time stamp; and it is the header, which
  holds the time stamp and the metadata, followed by a text that depends on the root and
  the tree only. Two runs over the same tree therefore differ in the title line at
  most, and in the lines of the metadata when that has changed.
\<close>

theorem output_determined_by_tree:
  "(\<exists>rest. \<forall>timestamp. scan_project timestamp qb qc qs root_path tree = title_line timestamp @ rest) \<and>
   (\<exists>body. \<forall>timestamp qb qc qs. scan_project timestamp qb qc qs root_path tree =
      context_header timestamp root_path (get_git_info qb qc qs) @ body)"
proof -
  obtain added n extra where loop: "\<And>st.
     combined_code (scan_loop root_path (rglob root_path tree) st) = combined_code st @ added \<and>
     file_count (scan_loop root_path (rglob root_path tree) st) = file_count st + n \<and>
     processed (scan_loop root_path (rglob root_path tree) st) = processed st @ extra"
    using scan_loop_appends [of root_path "rglob root_path tree"] by blast
  have out: "scan_project timestamp qb qc qs root_path tree =
      context_header timestamp root_path (get_git_info qb qc qs) @ (''\<newline>'' @ added @ summary_line n)"
    for timestamp qb qc qs
    by (simp add: scan_project_def Let_def scan_final_def loop scan_init_def del: rglob.simps)
  obtain hd_rest where hd: "\<And>timestamp. context_header timestamp root_path (get_git_info qb qc qs) =
      title_line timestamp @ hd_rest"
    by (cases "get_git_info qb qc qs") (simp add: context_header_def)
  have "\<forall>timestamp. scan_project timestamp qb qc qs root_path tree =
      title_line timestamp @ (hd_rest @ ''\<newline>'' @ added @ summary_line n)"
    by (simp add: out hd)
  moreover have "\<forall>timestamp qb qc qs. scan_project timestamp qb qc qs root_path tree =
      context_header timestamp root_path (get_git_info qb qc qs) @ (''\<newline>'' @ added @ summary_line n)"
    using out by blast
  ultimately show ?thesis by blast
qed

text \<open>Two runs over the sample tree at different times.\<close>

theorem output_determined_by_tree_witness:
  "\<exists>rest.
     scan_project ''2024-01-01 09:00:00'' (Output ''main'') (Output ''abc'') (Output '''') demo_root demo_tree =
       title_line ''2024-01-01 09:00:00'' @ rest \<and>
     scan_project ''2025-06-30 17:45:10'' (Output ''main'') (Output ''abc'') (Output '''') demo_root demo_tree =
       title_line ''2025-06-30 17:45:10'' @ rest"
  using output_determined_by_tree [of "Output ''main''" "Output ''abc''" "Output ''''" demo_root demo_tree]
  by blast

subsection \<open>The metadata\<close>



text \<open>
  Claim C3 at a detached HEAD. There \<open>git branch --show-current\<close> succeeds and prints an
  empty line, so the branch is the empty text, which Python takes as false at line 75:
  the three commands succeed, and the header holds the marker and neither the branch
  line nor the commit line.
\<close>

theorem detached_head_reported_as_no_repository:
  "get_git_info (Output ''\<newline>'') (Output ''0a1b2c\<newline>'') (Output '''') = (Some '''', Some ''0a1b2c'', 0) \<and>
   succeeded (Output ''\<newline>'') \<and> succeeded (Output ''0a1b2c\<newline>'') \<and> succeeded (Output '''') \<and>
   sublist not_git_marker
     (context_header ''T'' demo_root (get_git_info (Output ''\<newline>'') (Output ''0a1b2c\<newline>'') (Output ''''))) \<and>
   \<not> sublist ''Git Branch: ''
     (context_header ''T'' demo_root (get_git_info (Output ''\<newline>'') (Output ''0a1b2c\<newline>'') (Output ''''))) \<and>
   \<not> sublist ''Git Commit ID: ''
     (context_header ''T'' demo_root (get_git_info (Output ''\<newline>'') (Output ''0a1b2c\<newline>'') (Output '''')))"
  by code_simp

end
